theory Spec2Isabelle
  imports Main "HOL-Library.AList"
begin

section \<open>The connection engine of tchannel/tornado/connection.py\<close>

text \<open>
  The theory embeds the class \<open>TornadoConnection\<close>. Every method becomes a function
  from the connection (and its arguments) to a result and the connection after the call;
  an exception is the left injection of the result, and the connection returned with it
  is the state the raise leaves behind (Python does not roll back the mutations made
  before a raise).
\<close>

subsection \<open>Message types and messages\<close>

text \<open>
  Modelled from the spec: the enumeration \<open>messages.Types\<close> (tchannel/messages/types.py
  is outside the file embedded here). The names and wire values are those of the
  data model section of the specification.
\<close>

datatype Types =
    INIT_REQ | INIT_RES | CALL_REQ | CALL_RES | CALL_REQ_CONTINUE | CALL_RES_CONTINUE
  | CANCEL | CLAIM | PING_REQ | PING_RES | ERROR

fun type_code :: "Types \<Rightarrow> nat" where
  "type_code INIT_REQ = 1"
| "type_code INIT_RES = 2"
| "type_code CALL_REQ = 3"
| "type_code CALL_RES = 4"
| "type_code CALL_REQ_CONTINUE = 19"
| "type_code CALL_RES_CONTINUE = 20"
| "type_code CANCEL = 192"
| "type_code CLAIM = 193"
| "type_code PING_REQ = 208"
| "type_code PING_RES = 209"
| "type_code ERROR = 255"

text \<open>
  Modelled from the spec: the message classes of tchannel/messages. The handshake
  messages carry a protocol version and a headers dictionary, an error message a code
  and a message string, the ping messages nothing; the body of the call, cancel and
  claim messages is not looked at by the connection and stays abstract (\<open>'b\<close>).
\<close>

datatype 'b message =
    InitRequestMessage nat "string \<rightharpoonup> string"
  | InitResponseMessage nat "string \<rightharpoonup> string"
  | CallRequestMessage 'b
  | CallResponseMessage 'b
  | CallRequestContinueMessage 'b
  | CallResponseContinueMessage 'b
  | CancelMessage 'b
  | ClaimMessage 'b
  | PingRequestMessage
  | PingResponseMessage
  | ErrorMessage nat string

fun message_type :: "'b message \<Rightarrow> Types" where
  "message_type (InitRequestMessage v h) = INIT_REQ"
| "message_type (InitResponseMessage v h) = INIT_RES"
| "message_type (CallRequestMessage b) = CALL_REQ"
| "message_type (CallResponseMessage b) = CALL_RES"
| "message_type (CallRequestContinueMessage b) = CALL_REQ_CONTINUE"
| "message_type (CallResponseContinueMessage b) = CALL_RES_CONTINUE"
| "message_type (CancelMessage b) = CANCEL"
| "message_type (ClaimMessage b) = CLAIM"
| "message_type PingRequestMessage = PING_REQ"
| "message_type PingResponseMessage = PING_RES"
| "message_type (ErrorMessage code text) = ERROR"

text \<open>
  The attributes \<open>version\<close>, \<open>host_port\<close> and \<open>process_name\<close> exist on the two
  handshake messages only: \<open>init_fields\<close> gives the version and the headers of such a
  message, and reading one of these attributes on any other message raises
  \<open>AttributeError\<close>. \<open>host_port\<close> and \<open>process_name\<close> read the header of that
  name (\<open>None\<close> when the dictionary has no such key).
\<close>

fun init_fields :: "'b message \<Rightarrow> (nat \<times> (string \<rightharpoonup> string)) option" where
  "init_fields (InitRequestMessage v h) = Some (v, h)"
| "init_fields (InitResponseMessage v h) = Some (v, h)"
| "init_fields m = None"

definition host_port :: "(string \<rightharpoonup> string) \<Rightarrow> string option" where
  "host_port h = h ''host_port''"

definition process_name :: "(string \<rightharpoonup> string) \<Rightarrow> string option" where
  "process_name h = h ''process_name''"

text \<open>Modelled from the spec: the protocol version constant is 2.\<close>

definition PROTOCOL_VERSION :: nat where
  "PROTOCOL_VERSION = 2"

text \<open>
  Python's \<open>not x\<close> on an optional string: true for \<open>None\<close> and for the empty string.
\<close>

definition py_not :: "string option \<Rightarrow> bool" where
  "py_not x = (case x of None \<Rightarrow> True | Some s \<Rightarrow> s = [])"

text \<open>The decimal numeral that \<open>%d\<close> and \<open>%s\<close> print for a non-negative integer.\<close>

definition digit_char :: "nat \<Rightarrow> char" where
  "digit_char n = char_of (48 + n)"

function str_nat :: "nat \<Rightarrow> string" where
  "str_nat n = (if n < 10 then [digit_char n] else str_nat (n div 10) @ [digit_char (n mod 10)])"
  by pat_completeness auto
termination
  by (relation "measure (\<lambda>n. n)") auto

declare str_nat.simps [simp del]

subsection \<open>Exceptions, futures, frames and the stream\<close>

datatype error =
    InvalidMessageException string
  | ConnectionClosedException string
  | InvalidErrorCodeException nat
  | StreamClosedError
  | AttributeError string

text \<open>The \<open>Context\<close> handed to a handler: the message id of the frame and its message.\<close>

datatype 'b Context = Context (ctx_message_id: nat) (ctx_message: "'b message")

text \<open>
  A \<open>tornado.gen.Future\<close> is running until a result or an exception is set on it.
\<close>

datatype 'r Future = Running | Result 'r | Exception error

fun running :: "'r Future \<Rightarrow> bool" where
  "running Running = True"
| "running (Result r) = False"
| "running (Exception e) = False"

datatype FrameHeader = FrameHeader (hdr_message_type: Types) (hdr_message_id: nat)

datatype 'p Frame = Frame (header: FrameHeader) (payload: 'p)

text \<open>
  The stream the connection wraps (a Tornado \<open>IOStream\<close>, an outside library): what has
  been written to it, one entry for each call of \<open>write\<close>, and whether it is closed.
  The bytes of a frame are the encoding of the frame by \<open>frame.frame_rw\<close>, which is
  outside the file embedded here, so an entry is kept as the frame that was encoded.
  \<open>write\<close> on a closed stream raises \<open>StreamClosedError\<close> and writes nothing.
\<close>

record 'p IOStream =
  written :: "'p Frame list"
  stream_closed :: bool

definition stream_write :: "'p Frame \<Rightarrow> 'p IOStream \<Rightarrow> (error + unit) \<times> 'p IOStream" where
  "stream_write f s =
     (if stream_closed s then (Inl StreamClosedError, s)
      else (Inr (), s\<lparr>written := written s @ [f]\<rparr>))"

text \<open>
  What the connection calls and connection.py does not define, taken as parameters:
  the checksum routine for the body of a call message, the payload writer
  \<open>messages.RW[message_type].write\<close>, the fragmenter \<open>MessageFactory.fragment\<close>, the
  keys of \<open>ErrorMessage.ERROR_CODES\<close> and the constant \<open>ErrorCode.bad_request\<close>.
\<close>

record ('b, 'p) deps =
  compute_checksum :: "'b \<Rightarrow> 'b"
  rw_write :: "'b message \<Rightarrow> 'p"
  fragment :: "'b message \<Rightarrow> 'b message list"
  ERROR_CODES :: "nat list"
  bad_request :: nat

text \<open>
  Modelled from the spec: \<open>generate_checksum\<close> of tchannel/messages/common.py, which
  fills in the checksum of a call request or response (and of their continuations) with
  the routine supplied and leaves every other message as it is.
\<close>

fun generate_checksum :: "('b \<Rightarrow> 'b) \<Rightarrow> 'b message \<Rightarrow> 'b message" where
  "generate_checksum cs (CallRequestMessage b) = CallRequestMessage (cs b)"
| "generate_checksum cs (CallResponseMessage b) = CallResponseMessage (cs b)"
| "generate_checksum cs (CallRequestContinueMessage b) = CallRequestContinueMessage (cs b)"
| "generate_checksum cs (CallResponseContinueMessage b) = CallResponseContinueMessage (cs b)"
| "generate_checksum cs m = m"

subsection \<open>The connection\<close>

datatype level = DEBUG | WARN

text \<open>
  The fields of \<open>TornadoConnection\<close>. The values of the dictionary \<open>awaiting_responses\<close>
  are references to future objects: \<open>futures\<close> is the store of the futures the
  connection has created, and a reference is an index into it. The dictionary is an
  association list with one pair for each key, since \<open>on_close\<close> iterates over it.
  \<open>logged\<close> collects the records given to the module's logger. Message ids are
  non-negative: the counter starts at 0 and is only incremented, and the id of an inbound
  frame is an unsigned field.
\<close>

record ('b, 'p) TornadoConnection =
  connection :: "'p IOStream"
  closed :: bool
  id_sequence :: nat
  remote_host :: "string option"
  remote_process_name :: "string option"
  requested_version :: "nat option"
  awaiting_responses :: "(nat \<times> nat) list"
  futures :: "'b Context Future list"
  logged :: "(level \<times> string) list"

definition init :: "'p IOStream \<Rightarrow> ('b, 'p) TornadoConnection" where
  "init s = \<lparr>connection = s, closed = False, id_sequence = 0, remote_host = None,
     remote_process_name = None, requested_version = None, awaiting_responses = [],
     futures = [], logged = []\<rparr>"

definition log_record ::
  "level \<Rightarrow> string \<Rightarrow> ('b, 'p) TornadoConnection \<Rightarrow> ('b, 'p) TornadoConnection" where
  "log_record l s c = c\<lparr>logged := logged c @ [(l, s)]\<rparr>"

definition next_message_id :: "('b, 'p) TornadoConnection \<Rightarrow> nat \<times> ('b, 'p) TornadoConnection" where
  "next_message_id c = (id_sequence c + 1, c\<lparr>id_sequence := id_sequence c + 1\<rparr>)"

text \<open>
  \<open>message_id or self.next_message_id()\<close>: the counter is used, and advanced, when the
  id given is \<open>None\<close> or 0.
\<close>

definition or_next_message_id ::
  "nat option \<Rightarrow> ('b, 'p) TornadoConnection \<Rightarrow> nat \<times> ('b, 'p) TornadoConnection" where
  "or_next_message_id message_id c =
     (case message_id of
        None \<Rightarrow> next_message_id c
      | Some i \<Rightarrow> if i = 0 then next_message_id c else (i, c))"

definition set_exception :: "nat \<Rightarrow> error \<Rightarrow> 'r Future list \<Rightarrow> 'r Future list" where
  "set_exception a e h = h[a := Exception e]"

definition set_result :: "nat \<Rightarrow> 'r \<Rightarrow> 'r Future list \<Rightarrow> 'r Future list" where
  "set_result a r h = h[a := Result r]"

definition on_close :: "('b, 'p) TornadoConnection \<Rightarrow> ('b, 'p) TornadoConnection" where
  "on_close c =
     c\<lparr>closed := True,
       futures :=
         fold (\<lambda>(message_id, response_future).
                 set_exception response_future
                   (ConnectionClosedException
                      (''canceling outstanding request '' @ str_nat message_id)))
           (awaiting_responses c) (futures c),
       awaiting_responses := []\<rparr>"

text \<open>
  \<open>close\<close> closes the stream. The constructor registers \<open>on_close\<close> as the close
  callback of the stream, which the stream runs when it goes from open to closed;
  closing a stream that is closed already does nothing.
\<close>

definition close :: "('b, 'p) TornadoConnection \<Rightarrow> ('b, 'p) TornadoConnection" where
  "close c =
     (if stream_closed (connection c) then c
      else on_close (c\<lparr>connection := (connection c)\<lparr>stream_closed := True\<rparr>\<rparr>))"

definition extract_handshake_headers ::
  "('b, 'p) TornadoConnection \<Rightarrow> 'b message \<Rightarrow> (error + unit) \<times> ('b, 'p) TornadoConnection" where
  "extract_handshake_headers c m =
     (case init_fields m of
        None \<Rightarrow> (Inl (AttributeError ''host_port''), c)
      | Some (v, h) \<Rightarrow>
          if py_not (host_port h) then
            (Inl (InvalidMessageException ''Missing required header: host_port''), c)
          else if py_not (process_name h) then
            (Inl (InvalidMessageException ''Missing required header: process_name''), c)
          else
            (Inr (), c\<lparr>remote_host := host_port h,
                       remote_process_name := process_name h,
                       requested_version := Some v\<rparr>))"

text \<open>
  Lines 149 and 150 of \<open>frame_and_write\<close>: a new future is created and stored in the
  dictionary under the message id, replacing what the dictionary held for that id.
\<close>

definition track_awaiting ::
  "nat \<Rightarrow> ('b, 'p) TornadoConnection \<Rightarrow> ('b, 'p) TornadoConnection" where
  "track_awaiting i c =
     (let c1 = log_record DEBUG (''awaiting response for message '' @ str_nat i) c
      in c1\<lparr>futures := futures c1 @ [Running],
            awaiting_responses := AList.update i (length (futures c1)) (awaiting_responses c1)\<rparr>)"

definition connection_write ::
  "'p Frame \<Rightarrow> ('b, 'p) TornadoConnection \<Rightarrow> (error + unit) \<times> ('b, 'p) TornadoConnection" where
  "connection_write f c =
     (case stream_write f (connection c) of (r, s) \<Rightarrow> (r, c\<lparr>connection := s\<rparr>))"

definition frame_and_write ::
  "('b, 'p) deps \<Rightarrow> ('b, 'p) TornadoConnection \<Rightarrow> 'b message \<Rightarrow> nat option
     \<Rightarrow> (error + unit) \<times> ('b, 'p) TornadoConnection" where
  "frame_and_write d c m message_id =
     (let m1 = generate_checksum (compute_checksum d) m;
          (i, c1) = or_next_message_id message_id c;
          c2 = (if message_type m1 \<in> set [CALL_REQ, INIT_REQ, PING_REQ]
                then track_awaiting i c1 else c1);
          f = Frame (FrameHeader (message_type m1) i) (rw_write d m1)
      in connection_write f c2)"

fun write_fragments ::
  "('b, 'p) deps \<Rightarrow> ('b, 'p) TornadoConnection \<Rightarrow> 'b message list \<Rightarrow> nat
     \<Rightarrow> (error + unit) \<times> ('b, 'p) TornadoConnection" where
  "write_fragments d c [] i = (Inr (), c)"
| "write_fragments d c (x # xs) i =
     (case frame_and_write d c x (Some i) of
        (Inl e, c1) \<Rightarrow> (Inl e, c1)
      | (Inr u, c1) \<Rightarrow> write_fragments d c1 xs i)"

definition frame_and_write_stream ::
  "('b, 'p) deps \<Rightarrow> ('b, 'p) TornadoConnection \<Rightarrow> 'b message \<Rightarrow> nat option
     \<Rightarrow> (error + unit) \<times> ('b, 'p) TornadoConnection" where
  "frame_and_write_stream d c m message_id =
     (let (i, c1) = or_next_message_id message_id c
      in write_fragments d c1 (fragment d m) i)"

definition initiate_handshake ::
  "('b, 'p) deps \<Rightarrow> ('b, 'p) TornadoConnection \<Rightarrow> (string \<rightharpoonup> string)
     \<Rightarrow> (error + unit) \<times> ('b, 'p) TornadoConnection" where
  "initiate_handshake d c headers =
     frame_and_write d c (InitRequestMessage PROTOCOL_VERSION headers) None"

text \<open>
  The two handshake coroutines, from the point where \<open>yield self.await()\<close> has given
  the context \<open>ctx\<close> of the first inbound frame.
\<close>

definition await_handshake_reply ::
  "('b, 'p) TornadoConnection \<Rightarrow> 'b Context
     \<Rightarrow> (error + 'b message) \<times> ('b, 'p) TornadoConnection" where
  "await_handshake_reply c ctx =
     (let m = ctx_message ctx in
      if message_type m \<noteq> INIT_RES then
        (Inl (InvalidMessageException
                (''Expected handshake response, got '' @ str_nat (type_code (message_type m)))),
         log_record WARN ''unexpected handshake response'' c)
      else
        (case extract_handshake_headers c m of
           (Inl e, c1) \<Rightarrow> (Inl e, c1)
         | (Inr u, c1) \<Rightarrow> (Inr m, c1)))"

definition await_handshake ::
  "('b, 'p) deps \<Rightarrow> ('b, 'p) TornadoConnection \<Rightarrow> (string \<rightharpoonup> string) \<Rightarrow> 'b Context
     \<Rightarrow> (error + unit) \<times> ('b, 'p) TornadoConnection" where
  "await_handshake d c headers ctx =
     (let c0 = log_record DEBUG ''got handshake'' (log_record DEBUG ''awaiting handshake'' c);
          m = ctx_message ctx in
      if message_type m \<noteq> INIT_REQ then
        (Inl (InvalidMessageException
                (''You need to shake my hand first. Got: '' @ str_nat (type_code (message_type m)))),
         c0)
      else
        (case extract_handshake_headers c0 m of
           (Inl e, c1) \<Rightarrow> (Inl e, c1)
         | (Inr u, c1) \<Rightarrow>
             frame_and_write d c1 (InitResponseMessage PROTOCOL_VERSION headers)
               (Some (ctx_message_id ctx))))"

definition ping ::
  "('b, 'p) deps \<Rightarrow> ('b, 'p) TornadoConnection \<Rightarrow> nat option
     \<Rightarrow> (error + unit) \<times> ('b, 'p) TornadoConnection" where
  "ping d c message_id = frame_and_write d c PingRequestMessage message_id"

definition pong ::
  "('b, 'p) deps \<Rightarrow> ('b, 'p) TornadoConnection \<Rightarrow> nat option
     \<Rightarrow> (error + unit) \<times> ('b, 'p) TornadoConnection" where
  "pong d c message_id = frame_and_write d c PingResponseMessage message_id"

text \<open>
  The handler that \<open>outgoing\<close> installs for inbound messages. A \<open>Context\<close> object is
  true in a condition, so \<open>context and ...\<close> is the membership test. The value
  popped is a reference into the store; the test that it lies within the store stands
  for the fact that a reference held by the dictionary is never dangling.
\<close>

definition handle_call_response ::
  "'b Context option \<Rightarrow> ('b, 'p) TornadoConnection \<Rightarrow> ('b, 'p) TornadoConnection" where
  "handle_call_response context c =
     (case context of
        None \<Rightarrow> close (log_record WARN ''done with connection :/'' c)
      | Some ctx \<Rightarrow>
          (case map_of (awaiting_responses c) (ctx_message_id ctx) of
             Some resp_future \<Rightarrow>
               (let c1 = c\<lparr>awaiting_responses :=
                             AList.delete (ctx_message_id ctx) (awaiting_responses c)\<rparr>
                in if resp_future < length (futures c1) \<and> running (futures c1 ! resp_future)
                   then c1\<lparr>futures := set_result resp_future ctx (futures c1)\<rparr>
                   else c1)
           | None \<Rightarrow>
               log_record WARN
                 (''unrecognized response for message '' @ str_nat (ctx_message_id ctx)) c))"

definition finish ::
  "('b, 'p) deps \<Rightarrow> ('b, 'p) TornadoConnection \<Rightarrow> 'b Context
     \<Rightarrow> (error + unit) \<times> ('b, 'p) TornadoConnection" where
  "finish d c response =
     frame_and_write d c (ctx_message response) (Some (ctx_message_id response))"

definition send_error ::
  "('b, 'p) deps \<Rightarrow> ('b, 'p) TornadoConnection \<Rightarrow> nat \<Rightarrow> string \<Rightarrow> nat option
     \<Rightarrow> (error + unit) \<times> ('b, 'p) TornadoConnection" where
  "send_error d c code text message_id =
     (if code \<notin> set (ERROR_CODES d) then (Inl (InvalidErrorCodeException code), c)
      else frame_and_write d c (ErrorMessage (bad_request d) text) message_id)"

text \<open>
  Two names for what \<open>frame_and_write\<close> computes on the way: the message types for
  which it stores a future (the tuple of its \<open>in\<close> test), and the frame it hands to
  the stream for a message and the id it settled on.
\<close>

definition frame_of :: "('b, 'p) deps \<Rightarrow> 'b message \<Rightarrow> nat \<Rightarrow> 'p Frame" where
  "frame_of d m i = Frame (FrameHeader (message_type m) i) (rw_write d (generate_checksum (compute_checksum d) m))"

definition tracked :: "Types \<Rightarrow> bool" where
  "tracked t \<longleftrightarrow> t \<in> set [CALL_REQ, INIT_REQ, PING_REQ]"

subsection \<open>The invariant of the pending table\<close>

text \<open>
  What every method keeps true of the dictionary and the store: a key occurs once, no two
  keys share a future, and a future the dictionary refers to exists and is still running
  (a future is created when it is stored, taken out of the dictionary before a result is
  set on it, and the dictionary is emptied when the exceptions are set).
\<close>

definition pending_inv :: "('b, 'p) TornadoConnection \<Rightarrow> bool" where
  "pending_inv c \<longleftrightarrow>
     distinct (map fst (awaiting_responses c)) \<and>
     distinct (map snd (awaiting_responses c)) \<and>
     (\<forall>(k, a) \<in> set (awaiting_responses c). a < length (futures c) \<and> futures c ! a = Running)"

subsection \<open>Example collaborators and connections\<close>

text \<open>
  Concrete parameters on which the functions are evaluated: the payload of a frame is the
  message itself, a message is its own single fragment, and the error codes are those of
  the protocol's enumeration.
\<close>

definition demo_deps :: "(nat, nat message) deps" where
  "demo_deps = \<lparr>compute_checksum = (\<lambda>b. b), rw_write = (\<lambda>m. m),
     fragment = (\<lambda>m. [m]), ERROR_CODES = [0, 1, 2, 3, 4, 5, 6, 7, 8, 255], bad_request = 6\<rparr>"

definition open_stream :: "nat message IOStream" where
  "open_stream = \<lparr>written = [], stream_closed = False\<rparr>"

definition fresh :: "(nat, nat message) TornadoConnection" where
  "fresh = init open_stream"

text \<open>A connection on which two pings have been sent with ids from the counter.\<close>

definition two_pings :: "(nat, nat message) TornadoConnection" where
  "two_pings = snd (ping demo_deps (snd (ping demo_deps fresh None)) None)"

text \<open>
  Headers of a handshake: those of the first scenario of the specification, and a
  dictionary in which \<open>host_port\<close> is present with the empty string as its value.
\<close>

definition demo_headers :: "string \<rightharpoonup> string" where
  "demo_headers = [''host_port'' \<mapsto> ''1.2.3.4:5'', ''process_name'' \<mapsto> ''svc[42]'']"

definition peer_headers :: "string \<rightharpoonup> string" where
  "peer_headers = [''host_port'' \<mapsto> ''5.6.7.8:9'', ''process_name'' \<mapsto> ''peer[7]'']"

definition empty_host_headers :: "string \<rightharpoonup> string" where
  "empty_host_headers = [''host_port'' \<mapsto> [], ''process_name'' \<mapsto> ''peer[7]'']"

text \<open>A connection on which one ping has been sent under the id 5 given by the caller.\<close>

definition ping5 :: "(nat, nat message) TornadoConnection" where
  "ping5 = snd (ping demo_deps fresh (Some 5))"

text \<open>A stream that is closed before anything is written.\<close>

definition closed_stream :: "nat message IOStream" where
  "closed_stream = \<lparr>written = [], stream_closed = True\<rparr>"

section \<open>Properties\<close>

subsection \<open>Field lemmas\<close>

lemma log_record_fields [simp]:
  "connection (log_record l s c) = connection c" "closed (log_record l s c) = closed c"
  "id_sequence (log_record l s c) = id_sequence c"
  "awaiting_responses (log_record l s c) = awaiting_responses c"
  "futures (log_record l s c) = futures c"
  "logged (log_record l s c) = logged c @ [(l, s)]"
  by (simp_all add: log_record_def)


lemma length_fold_upd:
  "length (fold (\<lambda>(k, a) h. h[a := g k]) al h) = length h"
  by (induction al arbitrary: h) (auto)

lemma fold_upd_other:
  "a \<notin> snd ` set al \<Longrightarrow> fold (\<lambda>(k, a) h. h[a := g k]) al h ! a = h ! a"
  by (induction al arbitrary: h) (auto simp: image_iff)

lemma fold_upd_hit:
  "distinct (map snd al) \<Longrightarrow> (k, a) \<in> set al \<Longrightarrow> a < length h
     \<Longrightarrow> fold (\<lambda>(k, a) h. h[a := g k]) al h ! a = g k"
proof (induction al arbitrary: h)
  case Nil
  then show ?case by simp
next
  case (Cons x xs)
  obtain k' a' where x: "x = (k', a')" by (cases x)
  show ?case
  proof (cases "(k, a) = x")
    case True
    with Cons.prems x have "a \<notin> snd ` set xs" by (auto simp: image_iff)
    with True Cons.prems x show ?thesis
      by (auto simp: fold_upd_other length_fold_upd)
  next
    case False
    with Cons.prems have "(k, a) \<in> set xs" "distinct (map snd xs)" by auto
    then show ?thesis using Cons.IH[of "h[a' := g k']"] Cons.prems x by simp
  qed
qed

lemma on_close_fields:
  "awaiting_responses (on_close c) = []" "closed (on_close c)"
  "connection (on_close c) = connection c" "id_sequence (on_close c) = id_sequence c"
  "length (futures (on_close c)) = length (futures c)"
  by (simp_all add: on_close_def set_exception_def[abs_def] length_fold_upd)

lemma on_close_idem: "on_close (on_close c) = on_close c"
  by (simp add: on_close_def)

lemma close_idem: "close (close c) = close c"
  by (simp add: close_def on_close_def)

lemma pending_inv_slot:
  "pending_inv c \<Longrightarrow> map_of (awaiting_responses c) k = Some a
     \<Longrightarrow> a < length (futures c) \<and> futures c ! a = Running"
  by (auto simp: pending_inv_def dest!: map_of_SomeD)

lemma pending_inv_inj:
  assumes "pending_inv c" "map_of (awaiting_responses c) k = Some a"
    "map_of (awaiting_responses c) k' = Some a'" "k \<noteq> k'"
  shows "a \<noteq> a'"
proof -
  have "(k, a) \<in> set (awaiting_responses c)" "(k', a') \<in> set (awaiting_responses c)"
    using assms(2,3) by (auto dest: map_of_SomeD)
  moreover have "inj_on snd (set (awaiting_responses c))"
    using assms(1) by (simp add: pending_inv_def distinct_map)
  ultimately show ?thesis using assms(4) inj_onD[of snd "set (awaiting_responses c)" "(k, a)" "(k', a')"]
    by auto
qed

lemma handle_hit:
  assumes "pending_inv c" "map_of (awaiting_responses c) (ctx_message_id ctx) = Some a"
  shows "handle_call_response (Some ctx) c =
           c\<lparr>awaiting_responses := AList.delete (ctx_message_id ctx) (awaiting_responses c),
             futures := (futures c)[a := Result ctx]\<rparr>"
  using pending_inv_slot[OF assms] assms(2)
  by (simp add: handle_call_response_def set_result_def)

lemma handle_miss:
  assumes "map_of (awaiting_responses c) (ctx_message_id ctx) = None"
  shows "handle_call_response (Some ctx) c =
           log_record WARN (''unrecognized response for message '' @ str_nat (ctx_message_id ctx)) c"
  using assms by (simp add: handle_call_response_def)

lemma pending_inv_handle:
  assumes "pending_inv c"
  shows "pending_inv (handle_call_response (Some ctx) c)"
proof (cases "map_of (awaiting_responses c) (ctx_message_id ctx)")
  case None
  then show ?thesis using assms by (simp add: handle_miss pending_inv_def)
next
  case (Some a)
  have inj: "\<And>k b. (k, b) \<in> set (AList.delete (ctx_message_id ctx) (awaiting_responses c)) \<Longrightarrow> b \<noteq> a"
  proof -
    fix k b assume kb: "(k, b) \<in> set (AList.delete (ctx_message_id ctx) (awaiting_responses c))"
    then have "k \<noteq> ctx_message_id ctx" "(k, b) \<in> set (awaiting_responses c)"
      by (auto simp: AList.delete_eq)
    moreover have "distinct (map fst (awaiting_responses c))" using assms by (simp add: pending_inv_def)
    ultimately have "map_of (awaiting_responses c) k = Some b" by simp
    then show "b \<noteq> a" using pending_inv_inj[OF assms _ Some] \<open>k \<noteq> ctx_message_id ctx\<close> by blast
  qed
  let ?al = "AList.delete (ctx_message_id ctx) (awaiting_responses c)"
  have d1: "distinct (map fst ?al)"
    using assms by (simp add: pending_inv_def AList.distinct_delete)
  have d2: "distinct (map snd ?al)"
    using assms by (simp add: pending_inv_def AList.delete_eq distinct_map_filter)
  have sub: "set ?al \<subseteq> set (awaiting_responses c)"
    by (auto simp: AList.delete_eq)
  have r: "\<forall>(k, b) \<in> set ?al. b < length ((futures c)[a := Result ctx])
             \<and> (futures c)[a := Result ctx] ! b = Running"
  proof (clarify)
    fix k b assume kb: "(k, b) \<in> set ?al"
    then have "(k, b) \<in> set (awaiting_responses c)" using sub by blast
    then have "b < length (futures c)" "futures c ! b = Running"
      using assms by (auto simp: pending_inv_def)
    then show "b < length ((futures c)[a := Result ctx])
             \<and> (futures c)[a := Result ctx] ! b = Running"
      using inj[OF kb] by simp
  qed
  show ?thesis
    unfolding handle_hit[OF assms Some] pending_inv_def using d1 d2 r by simp
qed

lemma message_type_generate_checksum [simp]:
  "message_type (generate_checksum cs m) = message_type m"
  by (cases m) simp_all

lemma or_next_message_id_fst:
  "fst (or_next_message_id mid c) =
     (case mid of None \<Rightarrow> id_sequence c + 1 | Some i \<Rightarrow> if i = 0 then id_sequence c + 1 else i)"
  by (simp add: or_next_message_id_def next_message_id_def split: option.splits)


lemma or_next_message_id_snd [simp]:
  "connection (snd (or_next_message_id mid c)) = connection c"
  "closed (snd (or_next_message_id mid c)) = closed c"
  "awaiting_responses (snd (or_next_message_id mid c)) = awaiting_responses c"
  "futures (snd (or_next_message_id mid c)) = futures c"
  "logged (snd (or_next_message_id mid c)) = logged c"
  by (simp_all add: or_next_message_id_def next_message_id_def split: option.splits)


lemma track_awaiting_fields [simp]:
  "connection (track_awaiting i c) = connection c"
  "closed (track_awaiting i c) = closed c"
  "id_sequence (track_awaiting i c) = id_sequence c"
  "futures (track_awaiting i c) = futures c @ [Running]"
  "awaiting_responses (track_awaiting i c) = AList.update i (length (futures c)) (awaiting_responses c)"
  "logged (track_awaiting i c) = logged c @ [(DEBUG, ''awaiting response for message '' @ str_nat i)]"
  by (simp_all add: track_awaiting_def Let_def)

lemma connection_write_fields [simp]:
  "fst (connection_write f c) = (if stream_closed (connection c) then Inl StreamClosedError else Inr ())"
  "written (connection (snd (connection_write f c))) =
     (if stream_closed (connection c) then written (connection c) else written (connection c) @ [f])"
  "stream_closed (connection (snd (connection_write f c))) = stream_closed (connection c)"
  "closed (snd (connection_write f c)) = closed c"
  "id_sequence (snd (connection_write f c)) = id_sequence c"
  "futures (snd (connection_write f c)) = futures c"
  "awaiting_responses (snd (connection_write f c)) = awaiting_responses c"
  "logged (snd (connection_write f c)) = logged c"
  by (simp_all add: connection_write_def stream_write_def)

lemma frame_and_write_unfold:
  "frame_and_write d c m mid =
     connection_write (frame_of d m (fst (or_next_message_id mid c)))
       (if tracked (message_type m)
        then track_awaiting (fst (or_next_message_id mid c)) (snd (or_next_message_id mid c))
        else snd (or_next_message_id mid c))"
  by (simp add: frame_and_write_def Let_def split_beta frame_of_def tracked_def)

lemma frame_and_write_fields:
  "fst (frame_and_write d c m mid) =
     (if stream_closed (connection c) then Inl StreamClosedError else Inr ())"
  "written (connection (snd (frame_and_write d c m mid))) =
     (if stream_closed (connection c) then written (connection c)
      else written (connection c) @ [frame_of d m (fst (or_next_message_id mid c))])"
  "stream_closed (connection (snd (frame_and_write d c m mid))) = stream_closed (connection c)"
  "closed (snd (frame_and_write d c m mid)) = closed c"
  "futures (snd (frame_and_write d c m mid)) =
     (if tracked (message_type m) then futures c @ [Running] else futures c)"
  "awaiting_responses (snd (frame_and_write d c m mid)) =
     (if tracked (message_type m)
      then AList.update (fst (or_next_message_id mid c)) (length (futures c)) (awaiting_responses c)
      else awaiting_responses c)"
  by (simp_all add: frame_and_write_unfold)

subsection \<open>The invariant is kept\<close>

lemma distinct_snd_update:
  "distinct (map snd al) \<Longrightarrow> v \<notin> snd ` set al \<Longrightarrow> distinct (map snd (AList.update k v al))"
proof (induction al)
  case Nil
  then show ?case by simp
next
  case (Cons x xs)
  obtain k' a' where x: "x = (k', a')" by (cases x)
  have sub: "snd ` set (AList.update k v xs) \<subseteq> insert v (snd ` set xs)"
    by (induction xs) (auto)
  show ?case
  proof (cases "k' = k")
    case True
    with Cons.prems x show ?thesis by (auto simp: image_iff)
  next
    case False
    with Cons x sub show ?thesis by (auto simp: image_iff) 
  qed
qed

lemma set_update_subset:
  "set (AList.update k v al) \<subseteq> insert (k, v) (set al)"
  by (induction al) auto

lemma length_update_present:
  "k \<in> fst ` set al \<Longrightarrow> length (AList.update k v al) = length al"
  by (induction al) auto

lemma map_of_update_length:
  "map_of al k = Some a \<Longrightarrow> length (AList.update k v al) = length al"
  by (rule length_update_present) (auto simp: image_iff dest: map_of_SomeD intro: bexI[of _ "(k, a)"])

lemma pending_inv_init: "pending_inv (init s)"
  by (simp add: pending_inv_def init_def)

lemma pending_inv_track_awaiting:
  assumes "pending_inv c"
  shows "pending_inv (track_awaiting i c)"
proof -
  have fresh: "length (futures c) \<notin> snd ` set (awaiting_responses c)"
    using assms by (auto simp: pending_inv_def)
  have d1: "distinct (map fst (AList.update i (length (futures c)) (awaiting_responses c)))"
    using assms by (simp add: pending_inv_def AList.distinct_update)
  have d2: "distinct (map snd (AList.update i (length (futures c)) (awaiting_responses c)))"
    using assms fresh by (simp add: pending_inv_def distinct_snd_update)
  have r: "\<forall>(k, a) \<in> set (AList.update i (length (futures c)) (awaiting_responses c)).
             a < length (futures c @ [Running]) \<and> (futures c @ [Running]) ! a = Running"
  proof (clarify)
    fix k a assume "(k, a) \<in> set (AList.update i (length (futures c)) (awaiting_responses c))"
    then have "(k, a) = (i, length (futures c)) \<or> (k, a) \<in> set (awaiting_responses c)"
      using set_update_subset by fastforce
    then show "a < length (futures c @ [Running]) \<and> (futures c @ [Running]) ! a = Running"
      using assms by (auto simp: pending_inv_def nth_append)
  qed
  show ?thesis unfolding pending_inv_def using d1 d2 r by simp
qed

lemma pending_inv_frame_and_write:
  assumes "pending_inv c"
  shows "pending_inv (snd (frame_and_write d c m mid))"
proof -
  have a: "pending_inv (snd (or_next_message_id mid c))"
    using assms by (simp add: pending_inv_def)
  have b: "pending_inv (track_awaiting (fst (or_next_message_id mid c)) (snd (or_next_message_id mid c)))"
    by (rule pending_inv_track_awaiting[OF a])
  have c: "\<And>f x. pending_inv x \<Longrightarrow> pending_inv (snd (connection_write f x))"
    by (simp add: pending_inv_def)
  show ?thesis using a b c by (auto simp: frame_and_write_unfold)
qed

lemma pending_inv_on_close: "pending_inv (on_close c)"
  by (simp add: pending_inv_def on_close_def)


lemma pending_inv_cong:
  "awaiting_responses c' = awaiting_responses c \<Longrightarrow> futures c' = futures c
     \<Longrightarrow> pending_inv c' = pending_inv c"
  by (simp add: pending_inv_def)

lemma pending_inv_close: "pending_inv c \<Longrightarrow> pending_inv (close c)"
  by (simp add: close_def pending_inv_on_close)

lemma pending_inv_handle_any:
  "pending_inv c \<Longrightarrow> pending_inv (handle_call_response r c)"
proof (cases r)
  case None
  assume "pending_inv c"
  then have "pending_inv (log_record WARN ''done with connection :/'' c)"
    by (simp add: pending_inv_def)
  then show ?thesis using None by (simp add: handle_call_response_def pending_inv_close)
next
  case (Some ctx)
  assume "pending_inv c"
  then show ?thesis using Some by (simp add: pending_inv_handle)
qed

lemma extract_handshake_headers_pending [simp]:
  "awaiting_responses (snd (extract_handshake_headers c m)) = awaiting_responses c"
  "futures (snd (extract_handshake_headers c m)) = futures c"
  by (simp_all add: extract_handshake_headers_def split: option.splits)

lemma pending_inv_extract_handshake_headers:
  "pending_inv c \<Longrightarrow> pending_inv (snd (extract_handshake_headers c m))"
  by (simp add: pending_inv_def)

lemma pending_inv_write_fragments:
  "pending_inv c \<Longrightarrow> pending_inv (snd (write_fragments d c xs i))"
proof (induction xs arbitrary: c)
  case Nil
  then show ?case by simp
next
  case (Cons x xs)
  have p: "pending_inv (snd (frame_and_write d c x (Some i)))"
    by (rule pending_inv_frame_and_write[OF Cons.prems])
  show ?case
  proof (cases "frame_and_write d c x (Some i)")
    case (Pair r c1)
    with p Cons.IH[of c1] show ?thesis by (cases r) simp_all
  qed
qed

lemma pending_inv_frame_and_write_stream:
  assumes "pending_inv c"
  shows "pending_inv (snd (frame_and_write_stream d c m mid))"
proof -
  have "pending_inv (snd (or_next_message_id mid c))"
    using assms by (simp add: pending_inv_def)
  then show ?thesis
    by (simp add: frame_and_write_stream_def split_beta pending_inv_write_fragments)
qed

lemma pending_inv_await_handshake_reply:
  assumes "pending_inv c"
  shows "pending_inv (snd (await_handshake_reply c ctx))"
proof -
  have "pending_inv (snd (extract_handshake_headers c (ctx_message ctx)))"
    by (rule pending_inv_extract_handshake_headers[OF assms])
  moreover have "pending_inv (log_record WARN ''unexpected handshake response'' c)"
    using assms by (simp add: pending_inv_def)
  ultimately show ?thesis
    by (auto simp: await_handshake_reply_def Let_def split: prod.splits sum.splits)
qed

lemma pending_inv_await_handshake:
  assumes "pending_inv c"
  shows "pending_inv (snd (await_handshake d c headers ctx))"
proof -
  let ?c0 = "log_record DEBUG ''got handshake'' (log_record DEBUG ''awaiting handshake'' c)"
  have c0: "pending_inv ?c0" using assms by (simp add: pending_inv_def)
  have e: "pending_inv (snd (extract_handshake_headers ?c0 (ctx_message ctx)))"
    by (rule pending_inv_extract_handshake_headers[OF c0])
  show ?thesis
  proof (cases "extract_handshake_headers ?c0 (ctx_message ctx)")
    case (Pair r c1)
    then have "pending_inv c1" using e by simp
    then show ?thesis using c0 Pair
      by (cases r) (simp_all add: await_handshake_def Let_def pending_inv_frame_and_write)
  qed
qed

lemma pending_inv_send_error:
  "pending_inv c \<Longrightarrow> pending_inv (snd (send_error d c code text mid))"
  by (simp add: send_error_def pending_inv_frame_and_write)

subsection \<open>Evaluation of the examples\<close>

lemma str_nat_vals:
  "str_nat 1 = ''1''" "str_nat (Suc 0) = ''1''" "str_nat 2 = ''2''" "str_nat (Suc (Suc 0)) = ''2''"
  "str_nat 5 = ''5''" "str_nat 7 = ''7''" "str_nat 209 = ''209''"
  by code_simp+

lemmas send_defs = ping_def frame_and_write_def or_next_message_id_def next_message_id_def
  track_awaiting_def connection_write_def stream_write_def log_record_def

lemma two_pings_eq:
  "two_pings =
     \<lparr>connection = \<lparr>written = [Frame (FrameHeader PING_REQ 1) PingRequestMessage,
                                Frame (FrameHeader PING_REQ 2) PingRequestMessage],
                     stream_closed = False\<rparr>,
      closed = False, id_sequence = 2, remote_host = None, remote_process_name = None,
      requested_version = None, awaiting_responses = [(1, 0), (2, 1)],
      futures = [Running, Running],
      logged = [(DEBUG, ''awaiting response for message 1''),
                (DEBUG, ''awaiting response for message 2'')]\<rparr>"
  by (simp add: two_pings_def fresh_def init_def open_stream_def demo_deps_def send_defs
        str_nat_vals)

lemma pending_inv_two_pings: "pending_inv two_pings"
  by (simp add: two_pings_eq pending_inv_def)

lemma on_close_two_pings:
  "futures (on_close two_pings) =
     [Exception (ConnectionClosedException ''canceling outstanding request 1''),
      Exception (ConnectionClosedException ''canceling outstanding request 2'')]"
  by (simp add: two_pings_eq on_close_def set_exception_def str_nat_vals)

lemma handle_two_pings:
  "futures (handle_call_response (Some (Context 2 PingResponseMessage)) two_pings) =
     [Running, Result (Context 2 PingResponseMessage)]"
  "awaiting_responses (handle_call_response (Some (Context 2 PingResponseMessage)) two_pings) =
     [(1, 0)]"
  "map_of (awaiting_responses two_pings) 2 = Some 1"
  "map_of (awaiting_responses two_pings) 7 = None"
  by (simp_all add: two_pings_eq handle_call_response_def set_result_def AList.delete_eq)

lemma fresh_fields:
  "connection fresh = open_stream" "closed fresh = False" "id_sequence fresh = 0"
  "remote_host fresh = None" "awaiting_responses fresh = []" "futures fresh = []"
  "stream_closed open_stream = False" "written open_stream = []"
  by (simp_all add: fresh_def init_def open_stream_def)

lemma demo_deps_fields:
  "rw_write demo_deps m = m" "compute_checksum demo_deps b = b"
  "fragment demo_deps m = [m]" "bad_request demo_deps = 6"
  "ERROR_CODES demo_deps = [0, 1, 2, 3, 4, 5, 6, 7, 8, 255]"
  by (simp_all add: demo_deps_def)


lemma ping5_eq:
  "awaiting_responses ping5 = [(5, 0)]" "futures ping5 = [Running]"
  "stream_closed (connection ping5) = False"
  by (simp_all add: ping5_def ping_def frame_and_write_fields tracked_def fresh_fields
        or_next_message_id_fst)

lemma pending_inv_ping5: "pending_inv ping5"
  by (simp add: pending_inv_def ping5_eq)

subsection \<open>C1: inbound responses and the pending table\<close>

text \<open>
  Claim C1. For a response handed to \<open>handle_call_response\<close> on a connection that
  satisfies the invariant: when its message id has a pending future, that future was
  running and now holds this response, the entry for the id is gone from the dictionary
  and nothing is logged; when its id has no pending future, the only change is the
  warning appended to the log, so the dictionary and the futures are untouched. In both
  cases the connection is not closed and the stream is as before, the future of every
  other id is still running, a future that changed is the one stored under the id of the
  response and holds that response, delivering a response with the same id again changes
  no future, and the invariant holds afterwards.
\<close>

theorem handle_call_response_correlates:
  assumes "pending_inv c"
  shows "let c' = handle_call_response (Some ctx) c; i = ctx_message_id ctx in
         (case map_of (awaiting_responses c) i of
            Some a \<Rightarrow>
              futures c ! a = Running \<and> futures c' ! a = Result ctx \<and>
              futures c' = (futures c)[a := Result ctx] \<and>
              map_of (awaiting_responses c') = (map_of (awaiting_responses c))(i := None) \<and>
              logged c' = logged c
          | None \<Rightarrow>
              c' = log_record WARN (''unrecognized response for message '' @ str_nat i) c \<and>
              awaiting_responses c' = awaiting_responses c \<and> futures c' = futures c) \<and>
         closed c' = closed c \<and> connection c' = connection c \<and>
         (\<forall>k a. k \<noteq> i \<and> map_of (awaiting_responses c) k = Some a
                 \<longrightarrow> futures c' ! a = Running) \<and>
         (\<forall>a. futures c' ! a \<noteq> futures c ! a
                 \<longrightarrow> map_of (awaiting_responses c) i = Some a \<and> futures c' ! a = Result ctx) \<and>
         (\<forall>ctx2. ctx_message_id ctx2 = i
                 \<longrightarrow> futures (handle_call_response (Some ctx2) c') = futures c') \<and>
         pending_inv c'"
proof (cases "map_of (awaiting_responses c) (ctx_message_id ctx)")
  case None
  then show ?thesis using assms pending_inv_handle[OF assms, of ctx]
    by (auto simp: handle_miss Let_def dest: pending_inv_slot)
next
  case (Some a)
  note h = handle_hit[OF assms Some]
  have s: "a < length (futures c)" "futures c ! a = Running"
    using pending_inv_slot[OF assms Some] by simp_all
  have gone: "map_of (AList.delete (ctx_message_id ctx) (awaiting_responses c)) (ctx_message_id ctx) = None"
    by (simp add: AList.delete_conv')
  have other: "\<forall>k b. k \<noteq> ctx_message_id ctx \<and> map_of (awaiting_responses c) k = Some b
                 \<longrightarrow> (futures c)[a := Result ctx] ! b = Running"
    using pending_inv_inj[OF assms _ Some] pending_inv_slot[OF assms] by (metis nth_list_update_neq)
  have changed: "\<forall>b. (futures c)[a := Result ctx] ! b \<noteq> futures c ! b
                 \<longrightarrow> a = b \<and> (futures c)[a := Result ctx] ! b = Result ctx"
    using s(1) by (metis nth_list_update_eq nth_list_update_neq)
  have again: "\<forall>ctx2. ctx_message_id ctx2 = ctx_message_id ctx
                 \<longrightarrow> futures (handle_call_response (Some ctx2) (handle_call_response (Some ctx) c))
                       = futures (handle_call_response (Some ctx) c)"
    using gone by (simp add: h handle_miss)
  show ?thesis
    using Some s other changed again pending_inv_handle[OF assms, of ctx]
    by (simp add: Let_def h AList.delete_conv')
qed

theorem handle_call_response_correlates_witness:
  "pending_inv two_pings \<and>
   map_of (awaiting_responses two_pings) 2 = Some 1 \<and>
   futures (handle_call_response (Some (Context 2 PingResponseMessage)) two_pings) ! 1 =
     Result (Context 2 PingResponseMessage) \<and>
   futures (handle_call_response (Some (Context 2 PingResponseMessage)) two_pings) =
     [Running, Result (Context 2 PingResponseMessage)] \<and>
   awaiting_responses (handle_call_response (Some (Context 2 PingResponseMessage)) two_pings) =
     [(1, 0)] \<and>
   closed (handle_call_response (Some (Context 2 PingResponseMessage)) two_pings) = closed two_pings \<and>
   pending_inv (handle_call_response (Some (Context 2 PingResponseMessage)) two_pings)"
proof -
  have m: "map_of (awaiting_responses two_pings) (ctx_message_id (Context 2 PingResponseMessage))
             = Some 1"
    by (simp add: handle_two_pings(3))
  show ?thesis
    using handle_call_response_correlates
            [OF pending_inv_two_pings, of "Context 2 PingResponseMessage"]
          pending_inv_two_pings handle_two_pings(1,2,3)
    unfolding Let_def m option.case by blast
qed

subsection \<open>C2: the close transition\<close>

text \<open>
  Claim C2. After \<open>on_close\<close> on a connection that satisfies the invariant, the
  dictionary is empty, the connection is marked closed, every future that was pending
  (and running) holds a \<open>ConnectionClosedException\<close> whose message carries the
  message id it was stored under, and no other future has changed. A second \<open>on_close\<close>
  changes nothing, and so does a second \<open>close\<close>.
\<close>

theorem on_close_drains:
  assumes "pending_inv c"
  shows "awaiting_responses (on_close c) = [] \<and> closed (on_close c) \<and>
         (\<forall>(k, a) \<in> set (awaiting_responses c).
             futures c ! a = Running \<and>
             futures (on_close c) ! a =
               Exception (ConnectionClosedException (''canceling outstanding request '' @ str_nat k))) \<and>
         (\<forall>a. a \<notin> snd ` set (awaiting_responses c) \<longrightarrow> futures (on_close c) ! a = futures c ! a) \<and>
         on_close (on_close c) = on_close c \<and> close (close c) = close c"
proof -
  have d: "distinct (map snd (awaiting_responses c))" 
    and r: "\<forall>(k, a) \<in> set (awaiting_responses c). a < length (futures c) \<and> futures c ! a = Running"
    using assms by (auto simp: pending_inv_def)
  have hit: "\<forall>(k, a) \<in> set (awaiting_responses c). futures c ! a = Running \<and>
             futures (on_close c) ! a =
               Exception (ConnectionClosedException (''canceling outstanding request '' @ str_nat k))"
    using r fold_upd_hit[OF d, where h = "futures c"
         and g = "\<lambda>k. Exception (ConnectionClosedException (''canceling outstanding request '' @ str_nat k))"]
    by (auto simp: on_close_def set_exception_def[abs_def])
  have other: "\<forall>a. a \<notin> snd ` set (awaiting_responses c) \<longrightarrow> futures (on_close c) ! a = futures c ! a"
    by (simp add: on_close_def set_exception_def[abs_def] fold_upd_other)
  show ?thesis using hit other on_close_fields(1,2)[of c] on_close_idem[of c] close_idem[of c]
    by blast
qed

theorem on_close_drains_witness:
  "pending_inv two_pings \<and>
   awaiting_responses (on_close two_pings) = [] \<and> closed (on_close two_pings) \<and>
   futures (on_close two_pings) =
     [Exception (ConnectionClosedException ''canceling outstanding request 1''),
      Exception (ConnectionClosedException ''canceling outstanding request 2'')] \<and>
   on_close (on_close two_pings) = on_close two_pings"
  using on_close_drains [OF pending_inv_two_pings] on_close_two_pings pending_inv_two_pings
  by blast

subsection \<open>C3: the message ids of the handshake\<close>

text \<open>
  Claim C3, as amended. On an open stream the initiator sends its \<open>init_req\<close> under the
  next id of the connection's counter, \<open>id_sequence + 1\<close>, which is 1 on a new
  connection and never 0. The acceptor, given an \<open>init_req\<close> with both required headers
  and a message id other than 0, sends its \<open>init_res\<close> under exactly the message id of
  that \<open>init_req\<close>.
\<close>

theorem handshake_message_ids:
  "(\<not> stream_closed (connection c) \<longrightarrow>
      fst (initiate_handshake d c headers) = Inr () \<and>
      written (connection (snd (initiate_handshake d c headers))) =
        written (connection c) @
          [Frame (FrameHeader INIT_REQ (id_sequence c + 1))
             (rw_write d (InitRequestMessage PROTOCOL_VERSION headers))]) \<and>
   (\<not> stream_closed (connection c) \<and> ctx_message ctx = InitRequestMessage v h \<and>
    \<not> py_not (host_port h) \<and> \<not> py_not (process_name h) \<and> ctx_message_id ctx \<noteq> 0 \<longrightarrow>
      fst (await_handshake d c headers ctx) = Inr () \<and>
      written (connection (snd (await_handshake d c headers ctx))) =
        written (connection c) @
          [Frame (FrameHeader INIT_RES (ctx_message_id ctx))
             (rw_write d (InitResponseMessage PROTOCOL_VERSION headers))])"
proof -
  have e: "\<And>x. connection (snd (extract_handshake_headers x (InitRequestMessage v h))) = connection x"
    by (simp add: extract_handshake_headers_def)
  have f: "\<And>x. \<not> py_not (host_port h) \<Longrightarrow> \<not> py_not (process_name h) \<Longrightarrow>
             fst (extract_handshake_headers x (InitRequestMessage v h)) = Inr ()"
    by (simp add: extract_handshake_headers_def)
  show ?thesis
    using e f
    by (auto simp: initiate_handshake_def await_handshake_def Let_def frame_and_write_fields
          frame_of_def or_next_message_id_fst extract_handshake_headers_def
          split: prod.splits sum.splits)
qed

theorem handshake_message_ids_witness:
  "\<not> stream_closed (connection fresh) \<and> \<not> py_not (host_port peer_headers) \<and>
   \<not> py_not (process_name peer_headers) \<and>
   written (connection (snd (initiate_handshake demo_deps fresh demo_headers))) =
     [Frame (FrameHeader INIT_REQ 1) (InitRequestMessage 2 demo_headers)] \<and>
   written (connection (snd (await_handshake demo_deps fresh demo_headers
       (Context 1 (InitRequestMessage 2 peer_headers))))) =
     [Frame (FrameHeader INIT_RES 1) (InitResponseMessage 2 demo_headers)]"
proof -
  have h: "\<not> stream_closed (connection fresh)" "\<not> py_not (host_port peer_headers)"
    "\<not> py_not (process_name peer_headers)"
    by (simp_all add: fresh_fields py_not_def host_port_def process_name_def peer_headers_def)
  show ?thesis
    using handshake_message_ids [of fresh demo_deps demo_headers
            "Context 1 (InitRequestMessage 2 peer_headers)" 2 peer_headers] h
    by (simp add: fresh_fields demo_deps_fields PROTOCOL_VERSION_def)
qed

text \<open>
  The claim as stated fails: on a new connection the \<open>init_req\<close> goes out under the
  id 1, not 0, and an \<open>init_req\<close> received under the id 0 is answered under the id 1.
\<close>

theorem handshake_id_zero_counterexample:
  "map (\<lambda>f. hdr_message_id (header f))
     (written (connection (snd (initiate_handshake demo_deps fresh demo_headers)))) = [1] \<and>
   map (\<lambda>f. hdr_message_id (header f))
     (written (connection (snd (await_handshake demo_deps fresh demo_headers
        (Context 0 (InitRequestMessage 2 peer_headers)))))) = [1]"
  by (simp add: initiate_handshake_def await_handshake_def Let_def frame_and_write_fields
        frame_of_def or_next_message_id_fst extract_handshake_headers_def fresh_fields
        py_not_def host_port_def process_name_def peer_headers_def log_record_def)

subsection \<open>C4: sending before the handshake\<close>




subsection \<open>C5: storing a future under an id that is present\<close>

text \<open>
  Claim C5, as amended. Storing a future under an id that is already in the dictionary
  does not fail: on a connection that satisfies the invariant, sending a message of a
  tracked type under an id given by the caller and already present makes the entry of
  that id refer to a new running future, leaves every other entry and the number of
  entries as they were, and leaves the future that was stored before running and out of
  the dictionary. The send raises only when the stream is closed.
\<close>

theorem frame_and_write_replaces_slot:
  assumes "pending_inv c" and "tracked (message_type m)" and "i \<noteq> 0"
    and "map_of (awaiting_responses c) i = Some a"
  shows "fst (frame_and_write d c m (Some i)) =
           (if stream_closed (connection c) then Inl StreamClosedError else Inr ()) \<and>
         map_of (awaiting_responses (snd (frame_and_write d c m (Some i)))) =
           (map_of (awaiting_responses c))(i \<mapsto> length (futures c)) \<and>
         length (awaiting_responses (snd (frame_and_write d c m (Some i)))) =
           length (awaiting_responses c) \<and>
         a \<noteq> length (futures c) \<and>
         futures (snd (frame_and_write d c m (Some i))) = futures c @ [Running] \<and>
         futures (snd (frame_and_write d c m (Some i))) ! a = Running \<and>
         a \<notin> snd ` set (awaiting_responses (snd (frame_and_write d c m (Some i)))) \<and>
         pending_inv (snd (frame_and_write d c m (Some i)))"
proof -
  let ?c' = "snd (frame_and_write d c m (Some i))"
  have a: "a < length (futures c)" "futures c ! a = Running"
    using pending_inv_slot[OF assms(1,4)] by simp_all
  have id: "fst (or_next_message_id (Some i) c) = i"
    using assms(3) by (simp add: or_next_message_id_fst)
  have d: "distinct (map fst (awaiting_responses c))"
    using assms(1) by (simp add: pending_inv_def)
  have tab: "awaiting_responses ?c' = AList.update i (length (futures c)) (awaiting_responses c)"
    using assms(2) by (simp add: frame_and_write_fields id)
  have inv: "pending_inv ?c'"
    by (rule pending_inv_frame_and_write[OF assms(1)])
  have gone: "a \<notin> snd ` set (awaiting_responses ?c')"
  proof
    assume "a \<in> snd ` set (awaiting_responses ?c')"
    then obtain k where k: "(k, a) \<in> set (awaiting_responses ?c')" by auto
    have "distinct (map fst (awaiting_responses ?c'))" using inv by (simp add: pending_inv_def)
    with k have "map_of (awaiting_responses ?c') k = Some a" by simp
    then have "((map_of (awaiting_responses c))(i \<mapsto> length (futures c))) k = Some a"
      by (simp add: tab AList.update_conv')
    then have ka: "k \<noteq> i" "map_of (awaiting_responses c) k = Some a"
      using a(1) by (auto split: if_splits)
    show False using pending_inv_inj[OF assms(1) ka(2) assms(4) ka(1)] by simp
  qed
  show ?thesis
    using a assms(2) d assms(4) inv gone
    by (simp add: frame_and_write_fields id AList.update_conv' map_of_update_length nth_append)
qed

theorem frame_and_write_replaces_slot_witness:
  "pending_inv ping5 \<and> tracked (message_type (PingRequestMessage :: nat message)) \<and> (5::nat) \<noteq> 0 \<and>
   map_of (awaiting_responses ping5) 5 = Some 0 \<and>
   fst (frame_and_write demo_deps ping5 PingRequestMessage (Some 5)) = Inr () \<and>
   futures (snd (frame_and_write demo_deps ping5 PingRequestMessage (Some 5))) ! 0 = Running \<and>
   0 \<notin> snd ` set (awaiting_responses (snd (frame_and_write demo_deps ping5 PingRequestMessage (Some 5))))"
proof -
  have h: "pending_inv ping5" "tracked (message_type (PingRequestMessage :: nat message))"
    "(5::nat) \<noteq> 0" "map_of (awaiting_responses ping5) 5 = Some 0"
    by (simp_all add: pending_inv_ping5 tracked_def ping5_eq)
  show ?thesis
    using frame_and_write_replaces_slot [OF h, of demo_deps] h
    by (simp add: ping5_eq)
qed

text \<open>
  The claim as stated fails: a second ping under the id 5 raises nothing, and the entry
  of 5 refers to the second future instead of the first.
\<close>

theorem insert_present_counterexample:
  "map_of (awaiting_responses ping5) 5 = Some 0 \<and>
   fst (ping demo_deps ping5 (Some 5)) = Inr () \<and>
   map_of (awaiting_responses (snd (ping demo_deps ping5 (Some 5)))) 5 = Some 1 \<and>
   futures (snd (ping demo_deps ping5 (Some 5))) = [Running, Running]"
  by (simp add: ping_def frame_and_write_fields tracked_def ping5_eq or_next_message_id_fst)

subsection \<open>C6: the future is stored before the frame is written\<close>

text \<open>
  Claim C6. Every call of \<open>frame_and_write\<close> is the write of its frame on a connection
  \<open>c2\<close> whose stream is still the stream before the call; for a message of type
  \<open>call_req\<close>, \<open>init_req\<close> or \<open>ping_req\<close> the dictionary of \<open>c2\<close> already has
  the new running future under the assigned id (and still has it after the call, also
  when the write raises), for every other type the dictionary and the futures are those
  before the call, in \<open>c2\<close> and after the call.
\<close>

theorem frame_and_write_tracks_before_write:
  "\<exists>c2. frame_and_write d c m mid =
           connection_write (frame_of d m (fst (or_next_message_id mid c))) c2 \<and>
         connection c2 = connection c \<and>
         (if message_type m \<in> set [CALL_REQ, INIT_REQ, PING_REQ]
          then map_of (awaiting_responses c2) (fst (or_next_message_id mid c)) =
                 Some (length (futures c)) \<and>
               futures c2 = futures c @ [Running] \<and>
               map_of (awaiting_responses (snd (frame_and_write d c m mid)))
                 (fst (or_next_message_id mid c)) = Some (length (futures c))
          else awaiting_responses c2 = awaiting_responses c \<and> futures c2 = futures c \<and>
               awaiting_responses (snd (frame_and_write d c m mid)) = awaiting_responses c \<and>
               futures (snd (frame_and_write d c m mid)) = futures c)"
proof (cases "tracked (message_type m)")
  case True
  then show ?thesis
    unfolding frame_and_write_unfold 
    by (intro exI[of _ "track_awaiting (fst (or_next_message_id mid c)) (snd (or_next_message_id mid c))"])
       (simp add: AList.update_conv' tracked_def)
next
  case False
  then show ?thesis
    unfolding frame_and_write_unfold
    by (intro exI[of _ "snd (or_next_message_id mid c)"]) (simp add: tracked_def)
qed

theorem frame_and_write_tracks_before_write_witness:
  "fst (frame_and_write demo_deps (init closed_stream) (PingRequestMessage :: nat message) None)
     = Inl StreamClosedError \<and>
   written (connection (snd (frame_and_write demo_deps (init closed_stream)
     (PingRequestMessage :: nat message) None))) = [] \<and>
   map_of (awaiting_responses (snd (frame_and_write demo_deps (init closed_stream)
     (PingRequestMessage :: nat message) None))) 1 = Some 0 \<and>
   awaiting_responses (snd (frame_and_write demo_deps (init closed_stream)
     (PingResponseMessage :: nat message) None)) = []"
  using frame_and_write_tracks_before_write
          [of demo_deps "init closed_stream" "PingRequestMessage :: nat message" None]
        frame_and_write_tracks_before_write
          [of demo_deps "init closed_stream" "PingResponseMessage :: nat message" None]
  by (simp add: frame_and_write_fields tracked_def init_def closed_stream_def
        or_next_message_id_fst)

subsection \<open>C7: a first message that is not the handshake reply\<close>

text \<open>
  Claim C7, as amended. When the first message the initiator receives is not an
  \<open>init_res\<close>, \<open>await_handshake_reply\<close> raises \<open>InvalidMessageException\<close> with the
  text "Expected handshake response, got" and the number of the type received, and
  logs a warning; it does not close the connection: the \<open>closed\<close> flag, the stream, the
  dictionary and the futures are as before.
\<close>

theorem await_handshake_reply_wrong_type:
  assumes "message_type (ctx_message ctx) \<noteq> INIT_RES"
  shows "await_handshake_reply c ctx =
           (Inl (InvalidMessageException
                   (''Expected handshake response, got '' @
                      str_nat (type_code (message_type (ctx_message ctx))))),
            log_record WARN ''unexpected handshake response'' c) \<and>
         closed (snd (await_handshake_reply c ctx)) = closed c \<and>
         connection (snd (await_handshake_reply c ctx)) = connection c \<and>
         awaiting_responses (snd (await_handshake_reply c ctx)) = awaiting_responses c \<and>
         futures (snd (await_handshake_reply c ctx)) = futures c"
  using assms by (simp add: await_handshake_reply_def Let_def)

theorem await_handshake_reply_wrong_type_witness:
  "message_type (ctx_message (Context 1 (PingRequestMessage :: nat message))) \<noteq> INIT_RES \<and>
   fst (await_handshake_reply fresh (Context 1 PingRequestMessage)) =
     Inl (InvalidMessageException ''Expected handshake response, got 208'') \<and>
   closed (snd (await_handshake_reply fresh (Context 1 PingRequestMessage))) = False"
proof -
  have h: "message_type (ctx_message (Context 1 (PingRequestMessage :: nat message))) \<noteq> INIT_RES"
    by simp
  have s: "str_nat 208 = ''208''" by code_simp
  show ?thesis
    using await_handshake_reply_wrong_type [OF h, of fresh] h
    by (simp add: fresh_fields s)
qed

text \<open>
  The claim as stated fails: after a \<open>ping_res\<close> as first message the exception is
  raised, and neither the connection nor its stream is closed.
\<close>

theorem handshake_reply_close_counterexample:
  "fst (await_handshake_reply fresh (Context 1 PingResponseMessage)) =
     Inl (InvalidMessageException ''Expected handshake response, got 209'') \<and>
   closed (snd (await_handshake_reply fresh (Context 1 PingResponseMessage))) = False \<and>
   stream_closed (connection (snd (await_handshake_reply fresh (Context 1 PingResponseMessage))))
     = False"
  by (simp add: await_handshake_reply_def Let_def fresh_fields str_nat_vals)

subsection \<open>C8: the required headers of a handshake message\<close>

text \<open>
  Claim C8, as amended. For a handshake message, \<open>extract_handshake_headers\<close> raises
  \<open>InvalidMessageException\<close> if and only if the header \<open>host_port\<close> or the header
  \<open>process_name\<close> is absent or is the empty string, and then the connection is
  unchanged; otherwise it raises nothing and records the peer's \<open>host_port\<close> as
  \<open>remote_host\<close>, its \<open>process_name\<close> as \<open>remote_process_name\<close> and its version as
  \<open>requested_version\<close>.
\<close>

theorem extract_handshake_headers_iff:
  assumes "init_fields m = Some (v, h)"
  shows "((\<exists>s. fst (extract_handshake_headers c m) = Inl (InvalidMessageException s)) \<longleftrightarrow>
            (h ''host_port'' = None \<or> h ''host_port'' = Some [] \<or>
             h ''process_name'' = None \<or> h ''process_name'' = Some [])) \<and>
         (if h ''host_port'' = None \<or> h ''host_port'' = Some [] \<or>
             h ''process_name'' = None \<or> h ''process_name'' = Some []
          then snd (extract_handshake_headers c m) = c
          else extract_handshake_headers c m =
                 (Inr (), c\<lparr>remote_host := h ''host_port'',
                            remote_process_name := h ''process_name'',
                            requested_version := Some v\<rparr>))"
  using assms
  by (auto simp: extract_handshake_headers_def py_not_def host_port_def process_name_def
        split: option.splits)

theorem extract_handshake_headers_iff_witness:
  "init_fields (InitResponseMessage 2 peer_headers :: nat message) = Some (2, peer_headers) \<and>
   extract_handshake_headers fresh (InitResponseMessage 2 peer_headers) =
     (Inr (), fresh\<lparr>remote_host := Some ''5.6.7.8:9'',
                     remote_process_name := Some ''peer[7]'',
                     requested_version := Some 2\<rparr>)"
proof -
  have h: "init_fields (InitResponseMessage 2 peer_headers :: nat message) = Some (2, peer_headers)"
    by simp
  show ?thesis
    using extract_handshake_headers_iff [OF h, of fresh] h
    by (simp add: peer_headers_def)
qed

text \<open>
  The claim as stated fails: with both headers present and \<open>host_port\<close> the empty
  string, the exception is raised.
\<close>

theorem empty_header_counterexample:
  "empty_host_headers ''host_port'' \<noteq> None \<and> empty_host_headers ''process_name'' \<noteq> None \<and>
   extract_handshake_headers fresh (InitResponseMessage 2 empty_host_headers) =
     (Inl (InvalidMessageException ''Missing required header: host_port''), fresh)"
  by (simp add: extract_handshake_headers_def empty_host_headers_def py_not_def host_port_def)

subsection \<open>C9: the code of the error message sent\<close>

text \<open>
  Claim C9. For a code among the keys of \<open>ERROR_CODES\<close>, \<open>send_error\<close> is the send
  of an error message whose code is \<open>bad_request\<close>, whatever the code passed: on an
  open stream it writes the frame of that message under the id settled on, and it
  stores no future. For a code outside the keys it raises
  \<open>InvalidErrorCodeException\<close> with the code and leaves the connection, and so the
  stream, unchanged.
\<close>

theorem send_error_bad_request:
  "(code \<in> set (ERROR_CODES d) \<longrightarrow>
      send_error d c code text mid = frame_and_write d c (ErrorMessage (bad_request d) text) mid \<and>
      fst (send_error d c code text mid) =
        (if stream_closed (connection c) then Inl StreamClosedError else Inr ()) \<and>
      written (connection (snd (send_error d c code text mid))) =
        (if stream_closed (connection c) then written (connection c)
         else written (connection c) @
                [Frame (FrameHeader ERROR (fst (or_next_message_id mid c)))
                   (rw_write d (ErrorMessage (bad_request d) text))]) \<and>
      awaiting_responses (snd (send_error d c code text mid)) = awaiting_responses c) \<and>
   (code \<notin> set (ERROR_CODES d) \<longrightarrow>
      send_error d c code text mid = (Inl (InvalidErrorCodeException code), c))"
  by (simp add: send_error_def frame_and_write_fields frame_of_def tracked_def)

theorem send_error_bad_request_witness:
  "(1::nat) \<in> set (ERROR_CODES demo_deps) \<and> (9::nat) \<notin> set (ERROR_CODES demo_deps) \<and>
   written (connection (snd (send_error demo_deps fresh 1 ''slow'' (Some 4)))) =
     [Frame (FrameHeader ERROR 4) (ErrorMessage 6 ''slow'')] \<and>
   send_error demo_deps fresh 9 ''slow'' (Some 4) = (Inl (InvalidErrorCodeException 9), fresh)"
  using send_error_bad_request [of 1 demo_deps fresh "''slow''" "Some 4"]
    send_error_bad_request [of 9 demo_deps fresh "''slow''" "Some 4"]
  by (simp add: demo_deps_fields fresh_fields or_next_message_id_fst frame_and_write_fields
        frame_of_def tracked_def)

subsection \<open>C10: the message id 0\<close>



end
